theory Spec2Isabelle
  imports Complex_Main
begin

section \<open>Grid specification of tidy3d: a shallow embedding of grid_spec.py\<close>

text \<open>
  The Python source computes with numpy arrays of IEEE doubles. In this development a
  coordinate is a \<^typ>\<open>real\<close> and an array is a \<^typ>\<open>real list\<close>: arithmetic is exact,
  there is no rounding, no infinity and no NaN. Every statement below is a statement
  about the program under exact arithmetic. The arguments \<open>center\<close> and \<open>size\<close> of the
  source are written \<open>c\<close> and \<open>sz\<close>. Python exceptions are values of the type
  \<open>error\<close>; a loop that may run forever returns an \<^typ>\<open>'a option\<close>, with \<open>None\<close> for
  "never returns".
\<close>

subsection \<open>Errors and numpy primitives\<close>

datatype error = SetupError | IndexError | ValueError | ValidationError

text \<open>\<open>np.cumsum\<close>: running sums, one entry per input entry.\<close>

fun cumsum_from :: "real \<Rightarrow> real list \<Rightarrow> real list" where
  "cumsum_from a [] = []"
| "cumsum_from a (x # xs) = (a + x) # cumsum_from (a + x) xs"

definition cumsum :: "real list \<Rightarrow> real list" where
  "cumsum xs = cumsum_from 0 xs"

text \<open>\<open>np.argmin\<close> on a non-empty array: the index of the first smallest entry. The
  callers check for the empty array, on which numpy raises \<open>ValueError\<close>.\<close>

fun argmin :: "real list \<Rightarrow> nat" where
  "argmin [] = 0"
| "argmin [x] = 0"
| "argmin (x # y # ys) =
     (let j = argmin (y # ys) in if x \<le> (y # ys) ! j then 0 else Suc j)"

text \<open>\<open>np.isclose(a, b)\<close> with numpy's default tolerances \<open>rtol = 1e-5\<close> and
  \<open>atol = 1e-8\<close>.\<close>

definition isclose :: "real \<Rightarrow> real \<Rightarrow> bool" where
  "isclose a b \<longleftrightarrow> \<bar>a - b\<bar> \<le> 1 / 10 ^ 8 + (1 / 10 ^ 5) * \<bar>b\<bar>"

subsection \<open>GridSpec1d: absorber layers\<close>

text \<open>\<open>GridSpec1d._add_pml_to_bounds\<close>. \<open>np.arange(n, 0, -1)\<close> is \<open>rev [1..<Suc n]\<close> and
  \<open>np.arange(1, n + 1)\<close> is \<open>[1..<Suc n]\<close>; \<open>bounds[-1]\<close> and \<open>bounds[-2]\<close> are read
  only when there are at least two boundaries.\<close>

definition add_pml_to_bounds :: "nat \<times> nat \<Rightarrow> real list \<Rightarrow> real list" where
  "add_pml_to_bounds num_layers bounds =
     (if length bounds < 2 then bounds
      else
        let first_step = bounds ! 1 - bounds ! 0;
            last_step = bounds ! (length bounds - 1) - bounds ! (length bounds - 2);
            add_left = map (\<lambda>k. bounds ! 0 - first_step * real k) (rev [1..<Suc (fst num_layers)]);
            add_right = map (\<lambda>k. bounds ! (length bounds - 1) + last_step * real k)
                          [1..<Suc (snd num_layers)]
        in add_left @ bounds @ add_right)"

subsection \<open>UniformGrid\<close>

text \<open>\<open>UniformGrid._make_coords_initial\<close>, with \<open>self.dl\<close> as the first argument.\<close>

definition uniform_make_coords_initial :: "real \<Rightarrow> real \<Rightarrow> real \<Rightarrow> real list" where
  "uniform_make_coords_initial dl c sz =
     (let num_cells = \<lceil>sz / dl\<rceil>;
          num_cells = max num_cells 1;
          dl_snapped = (if sz > 0 then sz / real_of_int num_cells else dl)
      in map (\<lambda>k. c - sz / 2 + real k * dl_snapped) [0..<nat (num_cells + 1)])"

subsection \<open>CustomGrid\<close>

text \<open>The two \<open>while\<close> loops of \<open>CustomGrid._make_coords_initial\<close>. Each evaluation of the
  loop condition reads \<open>bound_coords[0]\<close> (or \<open>bound_coords[-1]\<close>), which raises
  \<open>IndexError\<close> on an empty array. Nothing in the loop bounds the number of iterations, so
  the result is optional.\<close>

partial_function (option) prepend_loop :: "real \<Rightarrow> real \<Rightarrow> real list \<Rightarrow> (error + real list) option" where
  "prepend_loop dl_min bound_min bound_coords =
     (case bound_coords of
        [] \<Rightarrow> Some (Inl IndexError)
      | b # _ \<Rightarrow>
          if b - dl_min \<ge> bound_min
          then prepend_loop dl_min bound_min ((b - dl_min) # bound_coords)
          else Some (Inr bound_coords))"

partial_function (option) append_loop :: "real \<Rightarrow> real \<Rightarrow> real list \<Rightarrow> (error + real list) option" where
  "append_loop dl_max bound_max bound_coords =
     (case bound_coords of
        [] \<Rightarrow> Some (Inl IndexError)
      | _ # _ \<Rightarrow>
          if last bound_coords + dl_max \<le> bound_max
          then append_loop dl_max bound_max (bound_coords @ [last bound_coords + dl_max])
          else Some (Inr bound_coords))"

declare prepend_loop.simps [code]
declare append_loop.simps [code]

text \<open>The boundaries before the loops: cumulative sums from 0, centred, then clipped to
  the simulation bounds.\<close>

definition custom_clipped :: "real list \<Rightarrow> real \<Rightarrow> real \<Rightarrow> real list" where
  "custom_clipped dl c sz =
     (let bound_coords = 0 # cumsum dl;
          bound_coords = map (\<lambda>x. x + (c - last bound_coords / 2)) bound_coords;
          bound_min = c - sz / 2;
          bound_max = c + sz / 2;
          bound_coords = filter (\<lambda>x. x \<le> bound_max) bound_coords;
          bound_coords = filter (\<lambda>x. x \<ge> bound_min) bound_coords
      in bound_coords)"

text \<open>\<open>CustomGrid._make_coords_initial\<close>, with \<open>self.dl\<close> as the first argument. \<open>dl[0]\<close>
  raises \<open>IndexError\<close> on an empty \<open>dl\<close>.\<close>

definition custom_make_coords_initial :: "real list \<Rightarrow> real \<Rightarrow> real \<Rightarrow> (error + real list) option" where
  "custom_make_coords_initial dl c sz =
     (let bound_coords = custom_clipped dl c sz;
          bound_min = c - sz / 2;
          bound_max = c + sz / 2
      in case dl of
           [] \<Rightarrow> Some (Inl IndexError)
         | _ # _ \<Rightarrow>
             let dl_min = hd dl; dl_max = last dl
             in (case prepend_loop dl_min bound_min bound_coords of
                   None \<Rightarrow> None
                 | Some (Inl e) \<Rightarrow> Some (Inl e)
                 | Some (Inr bound_coords) \<Rightarrow> append_loop dl_max bound_max bound_coords))"

subsection \<open>AutoGrid and the three strategies\<close>

text \<open>Structures and sources are defined in other modules; only the fields read here
  are kept (\<open>geometry.center\<close> and \<open>geometry.size\<close> of a structure, \<open>source_time.freq0\<close>
  of a source).\<close>

record "structure" =
  geometry_center :: "real \<times> real \<times> real"
  geometry_size :: "real \<times> real \<times> real"

record source_time =
  freq0 :: real

record source =
  source_time :: source_time

text \<open>The mesher (module \<open>mesher\<close>) is a parameter of the model: its two methods are the
  fields of a record.\<close>

record mesher =
  parse_structures :: "nat \<Rightarrow> structure list \<Rightarrow> real option \<Rightarrow> real \<Rightarrow> real list \<times> real list"
  make_grid_multiple_intervals :: "real list \<Rightarrow> real list \<Rightarrow> real \<Rightarrow> bool \<Rightarrow> real list list"

datatype grid_spec_1d =
    UniformGrid real
  | CustomGrid "real list"
  | AutoGrid real real mesher

text \<open>\<open>AutoGrid._make_coords_initial\<close>. \<open>np.concatenate\<close> raises \<open>ValueError\<close> on an empty
  list of arrays and \<open>interval_coords[0]\<close> raises \<open>IndexError\<close> on an empty array.\<close>

definition auto_make_coords_initial ::
  "real \<Rightarrow> real \<Rightarrow> mesher \<Rightarrow> nat \<Rightarrow> structure list \<Rightarrow> real option \<Rightarrow> bool \<Rightarrow> error + real list" where
  "auto_make_coords_initial min_steps_per_wvl max_scale m axis structures wavelength is_periodic =
     (let (interval_coords, max_dl_list) = parse_structures m axis structures wavelength min_steps_per_wvl;
          len_interval_list = map2 (\<lambda>a b. a - b) (tl interval_coords) (butlast interval_coords);
          dl_list = make_grid_multiple_intervals m max_dl_list len_interval_list max_scale is_periodic
      in if dl_list = [] then Inl ValueError
         else (case interval_coords of
                 [] \<Rightarrow> Inl IndexError
               | c0 # _ \<Rightarrow> Inr (map (\<lambda>x. x + c0) (0 # cumsum (concat dl_list)))))"

text \<open>The dispatch of \<open>self._make_coords_initial\<close> on the class of \<open>self\<close>.\<close>

fun make_coords_initial ::
  "grid_spec_1d \<Rightarrow> real \<Rightarrow> real \<Rightarrow> nat \<Rightarrow> structure list \<Rightarrow> real option \<Rightarrow> bool
     \<Rightarrow> (error + real list) option" where
  "make_coords_initial (UniformGrid dl) c sz axis structures wavelength is_periodic =
     Some (Inr (uniform_make_coords_initial dl c sz))"
| "make_coords_initial (CustomGrid dl) c sz axis structures wavelength is_periodic =
     custom_make_coords_initial dl c sz"
| "make_coords_initial (AutoGrid min_steps_per_wvl max_scale m) c sz axis structures wavelength is_periodic =
     Some (auto_make_coords_initial min_steps_per_wvl max_scale m axis structures wavelength is_periodic)"

subsection \<open>GridSpec1d.make_coords\<close>

text \<open>\<open>GridSpec1d.make_coords\<close>, line by line. \<open>np.argmin\<close> raises \<open>ValueError\<close> on an
  empty array; \<open>bound_coords[:0:-1]\<close> is the reversed array without its first entry.\<close>

definition make_coords ::
  "grid_spec_1d \<Rightarrow> real \<Rightarrow> real \<Rightarrow> nat \<Rightarrow> structure list \<Rightarrow> int \<Rightarrow> real option \<Rightarrow> nat \<times> nat
     \<Rightarrow> (error + real list) option" where
  "make_coords g c sz axis structures symmetry wavelength num_pml_layers =
     (let is_periodic = (sum_list [fst num_pml_layers, snd num_pml_layers] = 0)
      in case make_coords_initial g c sz axis structures wavelength is_periodic of
           None \<Rightarrow> None
         | Some (Inl e) \<Rightarrow> Some (Inl e)
         | Some (Inr bound_coords) \<Rightarrow>
             if symmetry \<noteq> 0 then
               (case bound_coords of
                  [] \<Rightarrow> Some (Inl ValueError)
                | _ # _ \<Rightarrow>
                    let center_ind = argmin (map (\<lambda>x. \<bar>c - x\<bar>) bound_coords);
                        shift = c - bound_coords ! center_ind;
                        bound_coords = map (\<lambda>x. x + shift) bound_coords;
                        bound_coords = filter (\<lambda>x. x \<ge> c) bound_coords;
                        bound_coords = map (\<lambda>x. 2 * c - x) (rev (tl bound_coords)) @ bound_coords
                    in Some (Inr (add_pml_to_bounds num_pml_layers bound_coords)))
             else Some (Inr (add_pml_to_bounds num_pml_layers bound_coords)))"

text \<open>The symmetry step of \<open>make_coords\<close> (the body of \<open>if symmetry != 0\<close>) on its own,
  as the specification names it: the symmetry fold.\<close>

definition fold_symmetry :: "real \<Rightarrow> int \<Rightarrow> real list \<Rightarrow> error + real list" where
  "fold_symmetry c symmetry bound_coords =
     (if symmetry \<noteq> 0 then
        (case bound_coords of
           [] \<Rightarrow> Inl ValueError
         | _ # _ \<Rightarrow>
             let center_ind = argmin (map (\<lambda>x. \<bar>c - x\<bar>) bound_coords);
                 shift = c - bound_coords ! center_ind;
                 bound_coords = map (\<lambda>x. x + shift) bound_coords;
                 bound_coords = filter (\<lambda>x. x \<ge> c) bound_coords
             in Inr (map (\<lambda>x. 2 * c - x) (rev (tl bound_coords)) @ bound_coords))
      else Inr bound_coords)"

subsection \<open>GridSpec\<close>

record grid_spec =
  grid_x :: grid_spec_1d
  grid_y :: grid_spec_1d
  grid_z :: grid_spec_1d
  wavelength :: "real option"

fun is_AutoGrid :: "grid_spec_1d \<Rightarrow> bool" where
  "is_AutoGrid (AutoGrid _ _ _) = True"
| "is_AutoGrid _ = False"

definition auto_grid_used :: "grid_spec \<Rightarrow> bool" where
  "auto_grid_used gs = list_ex is_AutoGrid [grid_x gs, grid_y gs, grid_z gs]"

text \<open>\<open>GridSpec.get_wavelength\<close>. The constant \<open>C_0\<close> of module \<open>constants\<close> is the first
  argument. The call of \<open>log.info\<close> has no effect on the result and is left out.\<close>

definition get_wavelength :: "real \<Rightarrow> grid_spec \<Rightarrow> source list \<Rightarrow> error + real option" where
  "get_wavelength C_0 gs sources =
     (if wavelength gs \<noteq> None \<or> \<not> auto_grid_used gs then Inr (wavelength gs)
      else
        let freqs = map (\<lambda>s. freq0 (source_time s)) sources
        in if length freqs = 0 then Inl SetupError
           else if length freqs > 0 \<and> \<not> list_all (\<lambda>f. isclose f (freqs ! 0)) freqs
             then Inl SetupError
           else Inr (Some (C_0 / freqs ! 0)))"

text \<open>\<open>GridSpec.make_grid\<close>. \<open>structures[0]\<close> raises \<open>IndexError\<close> on an empty list. The
  three symmetry flags and the three pairs of layer counts are triples, and so is the
  result: the \<open>x\<close>, \<open>y\<close> and \<open>z\<close> boundaries of the grid.\<close>

definition make_grid ::
  "real \<Rightarrow> grid_spec \<Rightarrow> structure list \<Rightarrow> int \<times> int \<times> int \<Rightarrow> source list
     \<Rightarrow> (nat \<times> nat) \<times> (nat \<times> nat) \<times> (nat \<times> nat) \<Rightarrow> (error + real list \<times> real list \<times> real list) option" where
  "make_grid C_0 gs structures symmetry sources num_pml_layers =
     (case structures of
        [] \<Rightarrow> Some (Inl IndexError)
      | s0 # _ \<Rightarrow>
          let (cx, cy, cz) = geometry_center s0;
              (sx, sy, sz) = geometry_size s0;
              (symx, symy, symz) = symmetry;
              (px, py, pz) = num_pml_layers
          in case get_wavelength C_0 gs sources of
               Inl e \<Rightarrow> Some (Inl e)
             | Inr wvl \<Rightarrow>
                 (case make_coords (grid_x gs) cx sx 0 structures symx wvl px of
                    None \<Rightarrow> None
                  | Some (Inl e) \<Rightarrow> Some (Inl e)
                  | Some (Inr coords_x) \<Rightarrow>
                 (case make_coords (grid_y gs) cy sy 1 structures symy wvl py of
                    None \<Rightarrow> None
                  | Some (Inl e) \<Rightarrow> Some (Inl e)
                  | Some (Inr coords_y) \<Rightarrow>
                 (case make_coords (grid_z gs) cz sz 2 structures symz wvl pz of
                    None \<Rightarrow> None
                  | Some (Inl e) \<Rightarrow> Some (Inl e)
                  | Some (Inr coords_z) \<Rightarrow>
                      Some (Inr (coords_x, coords_y, coords_z))))))"

subsection \<open>Construction of a CustomGrid\<close>

text \<open>The field declaration \<open>dl: List[pd.PositiveFloat]\<close> is all the validation the class
  has: pydantic accepts a list of any length whose entries are all positive and raises a
  validation error otherwise.\<close>

definition CustomGrid_init :: "real list \<Rightarrow> error + grid_spec_1d" where
  "CustomGrid_init dl = (if list_all (\<lambda>d. 0 < d) dl then Inr (CustomGrid dl) else Inl ValidationError)"

subsection \<open>The per-axis build as the specification words it\<close>

text \<open>The specification describes the build of one axis as three stages in a row: the
  strategy's initial boundaries, with the periodicity flag true exactly when both layer
  counts are zero; then the symmetry fold; then the absorber extension. An error or a
  missing result of a stage ends the build. \<open>build_axis\<close> is that description; it is
  compared with \<open>make_coords\<close> below.\<close>

definition build_axis ::
  "grid_spec_1d \<Rightarrow> real \<Rightarrow> real \<Rightarrow> nat \<Rightarrow> structure list \<Rightarrow> int \<Rightarrow> real option \<Rightarrow> nat \<times> nat
     \<Rightarrow> (error + real list) option" where
  "build_axis g c sz axis structures symmetry wvl num_pml_layers =
     (case make_coords_initial g c sz axis structures wvl
             (fst num_pml_layers = 0 \<and> snd num_pml_layers = 0) of
        None \<Rightarrow> None
      | Some (Inl e) \<Rightarrow> Some (Inl e)
      | Some (Inr initial) \<Rightarrow>
          (case fold_symmetry c symmetry initial of
             Inl e \<Rightarrow> Some (Inl e)
           | Inr folded \<Rightarrow> Some (Inr (add_pml_to_bounds num_pml_layers folded))))"

subsection \<open>Boundaries added by repeating a step\<close>

text \<open>Two sequences used to state what the loops of the custom grid add:
  \<open>repeat_below d b k\<close> is \<open>b - k * d, \<dots>, b - 2 * d, b - d\<close>, the \<open>k\<close> boundaries reached
  from \<open>b\<close> by subtracting the step \<open>d\<close> again and again, in increasing order;
  \<open>repeat_above d e m\<close> is \<open>e + d, e + 2 * d, \<dots>, e + m * d\<close>.\<close>

definition repeat_below :: "real \<Rightarrow> real \<Rightarrow> nat \<Rightarrow> real list" where
  "repeat_below d b k = map (\<lambda>i. b - real (k - i) * d) [0..<k]"

definition repeat_above :: "real \<Rightarrow> real \<Rightarrow> nat \<Rightarrow> real list" where
  "repeat_above d e m = map (\<lambda>j. e + real (Suc j) * d) [0..<m]"

section \<open>Properties\<close>

subsection \<open>Absorber layers\<close>

lemma arange_down_nth: "i < a \<Longrightarrow> map f (rev [1..<Suc a]) ! i = f (a - i)"
proof -
  assume "i < a"
  then have "Suc (a - Suc i) = a - i" by simp
  with \<open>i < a\<close> show ?thesis by (simp add: rev_nth del: upt_Suc)
qed

lemma arange_up_nth: "j < b \<Longrightarrow> map g [1..<Suc b] ! j = g (Suc j)"
  by (simp del: upt_Suc)

lemma arange_down_length: "length (map f (rev [1..<Suc a])) = a"
  by simp

lemma nth_left: "i < length L \<Longrightarrow> (L @ M @ R) ! i = L ! i"
  by (simp add: nth_append)

lemma nth_mid: "i < length M \<Longrightarrow> (L @ M @ R) ! (length L + i) = M ! i"
  by (simp add: nth_append)

lemma nth_right: "(L @ M @ R) ! (length L + length M + j) = R ! j"
  by (simp add: nth_append)

lemma add_pml_to_bounds_eq:
  "2 \<le> length bounds \<Longrightarrow>
   add_pml_to_bounds (a, b) bounds =
     map (\<lambda>k. bounds ! 0 - (bounds ! 1 - bounds ! 0) * real k) (rev [1..<Suc a]) @ bounds @
     map (\<lambda>k. bounds ! (length bounds - 1) + (bounds ! (length bounds - 1) - bounds ! (length bounds - 2)) * real k) [1..<Suc b]"
  by (simp add: add_pml_to_bounds_def Let_def del: upt_Suc)

lemma pml_length: "2 \<le> length bounds \<Longrightarrow> length (add_pml_to_bounds (a, b) bounds) = length bounds + a + b"
  by (simp add: add_pml_to_bounds_eq del: upt_Suc)

lemma pml_middle: "2 \<le> length bounds \<Longrightarrow> take (length bounds) (drop a (add_pml_to_bounds (a, b) bounds)) = bounds"
  by (simp add: add_pml_to_bounds_eq del: upt_Suc)

lemma pml_left_step:
  assumes "2 \<le> length bounds" "i < a"
  shows "add_pml_to_bounds (a, b) bounds ! Suc i - add_pml_to_bounds (a, b) bounds ! i = bounds ! 1 - bounds ! 0"
proof -
  let ?f = "\<lambda>k. bounds ! 0 - (bounds ! 1 - bounds ! 0) * real k"
  let ?L = "map ?f (rev [1..<Suc a])"
  let ?R = "map (\<lambda>k. bounds ! (length bounds - 1) + (bounds ! (length bounds - 1) - bounds ! (length bounds - 2)) * real k) [1..<Suc b]"
  have r: "add_pml_to_bounds (a, b) bounds = ?L @ bounds @ ?R"
    using assms(1) by (rule add_pml_to_bounds_eq)
  have len: "length ?L = a" by (rule arange_down_length)
  have "(?L @ bounds @ ?R) ! i = ?L ! i"
    using assms(2) len by (intro nth_left) simp
  then have lo: "(?L @ bounds @ ?R) ! i = ?f (a - i)"
    using assms(2) by (simp only: arange_down_nth)
  have hi: "(?L @ bounds @ ?R) ! Suc i = ?f (a - Suc i)"
  proof (cases "Suc i < a")
    case True
    then have "(?L @ bounds @ ?R) ! Suc i = ?L ! Suc i"
      using len by (intro nth_left) simp
    then show ?thesis using True by (simp only: arange_down_nth)
  next
    case False
    with assms have e: "Suc i = a" by simp
    have "0 < length bounds" using assms(1) by linarith
    then have "(?L @ bounds @ ?R) ! (length ?L + 0) = bounds ! 0"
      by (rule nth_mid)
    then have "(?L @ bounds @ ?R) ! Suc i = bounds ! 0"
      unfolding len using e by simp
    then show ?thesis using e by simp
  qed
  have "real (a - i) = real (a - Suc i) + 1" using assms(2) by (simp add: of_nat_diff)
  then show ?thesis unfolding r lo hi by (simp add: algebra_simps)
qed

lemma pml_right_step:
  assumes "2 \<le> length bounds" "j < b"
  shows "add_pml_to_bounds (a, b) bounds ! (a + length bounds + j)
           - add_pml_to_bounds (a, b) bounds ! (a + length bounds + j - 1)
         = bounds ! (length bounds - 1) - bounds ! (length bounds - 2)"
proof -
  let ?n = "length bounds"
  let ?g = "\<lambda>k. bounds ! (?n - 1) + (bounds ! (?n - 1) - bounds ! (?n - 2)) * real k"
  let ?L = "map (\<lambda>k. bounds ! 0 - (bounds ! 1 - bounds ! 0) * real k) (rev [1..<Suc a])"
  let ?R = "map ?g [1..<Suc b]"
  have r: "add_pml_to_bounds (a, b) bounds = ?L @ bounds @ ?R"
    using assms(1) by (rule add_pml_to_bounds_eq)
  have len: "length ?L = a" by (rule arange_down_length)
  have "(?L @ bounds @ ?R) ! (length ?L + ?n + j) = ?R ! j"
    by (rule nth_right)
  then have hi: "(?L @ bounds @ ?R) ! (a + ?n + j) = ?g (Suc j)"
    unfolding len using assms(2) by (simp only: arange_up_nth)
  have lo: "(?L @ bounds @ ?R) ! (a + ?n + j - 1) = ?g j"
  proof (cases j)
    case 0
    have "?n - 1 < ?n" using assms(1) by simp
    then have "(?L @ bounds @ ?R) ! (length ?L + (?n - 1)) = bounds ! (?n - 1)"
      by (rule nth_mid)
    moreover have "a + ?n + j - 1 = a + (?n - 1)" using 0 assms(1) by simp
    ultimately show ?thesis unfolding len using 0 by simp
  next
    case (Suc k)
    have "(?L @ bounds @ ?R) ! (length ?L + ?n + k) = ?R ! k"
      by (rule nth_right)
    moreover have "k < b" using Suc assms(2) by simp
    ultimately have "(?L @ bounds @ ?R) ! (a + ?n + k) = ?g (Suc k)"
      unfolding len by (simp only: arange_up_nth)
    then show ?thesis using Suc by simp
  qed
  show ?thesis unfolding r lo hi by (simp add: algebra_simps)
qed

text \<open>
  Claim C4. On at least two boundaries and layer counts \<open>(a, b)\<close> the extension has
  exactly \<open>a + b\<close> more boundaries than its input; the input is unchanged in the middle;
  each of the first \<open>a\<close> steps of the result equals the first step of the input and each
  of the last \<open>b\<close> steps equals the last step of the input. On fewer than two boundaries
  the extension returns its input. Counts \<open>(2, 3)\<close> on \<open>[0, 1, 2]\<close> give
  \<open>[-2, -1, 0, 1, 2, 3, 4, 5]\<close>.
\<close>

theorem add_pml_to_bounds_extension:
  "(length bounds < 2 \<longrightarrow> add_pml_to_bounds (a, b) bounds = bounds) \<and>
   (2 \<le> length bounds \<longrightarrow>
      length (add_pml_to_bounds (a, b) bounds) = length bounds + a + b \<and>
      take (length bounds) (drop a (add_pml_to_bounds (a, b) bounds)) = bounds \<and>
      (\<forall>i<a. add_pml_to_bounds (a, b) bounds ! Suc i - add_pml_to_bounds (a, b) bounds ! i
                = bounds ! 1 - bounds ! 0) \<and>
      (\<forall>j<b. add_pml_to_bounds (a, b) bounds ! (a + length bounds + j)
                - add_pml_to_bounds (a, b) bounds ! (a + length bounds + j - 1)
                = bounds ! (length bounds - 1) - bounds ! (length bounds - 2))) \<and>
   add_pml_to_bounds (2, 3) [0, 1, 2] = [-2, -1, 0, 1, 2, 3, 4, 5]"
proof (intro conjI impI allI)
  show "length bounds < 2 \<Longrightarrow> add_pml_to_bounds (a, b) bounds = bounds"
    by (simp add: add_pml_to_bounds_def)
  show "add_pml_to_bounds (2, 3) [0, 1, 2] = [-2, -1, 0, 1, 2, 3, 4, 5]"
    by (simp add: add_pml_to_bounds_def upt_rec)
qed (simp_all only: pml_length pml_middle pml_left_step pml_right_step)

text \<open>The extension on \<open>[0, 2, 3]\<close>, with unequal edge steps, and counts \<open>(1, 2)\<close>.\<close>

theorem add_pml_to_bounds_extension_witness:
  "add_pml_to_bounds (1, 2) [0, 2, 3] = [-2, 0, 2, 3, 4, 5] \<and>
   length (add_pml_to_bounds (1, 2) [0, 2, 3]) = 6"
  using add_pml_to_bounds_extension [of "[0, 2, 3]" 1 2]
  by (simp add: add_pml_to_bounds_def upt_rec)

subsection \<open>Uniform grid\<close>

lemma uniform_eq:
  "uniform_make_coords_initial dl c sz =
     map (\<lambda>k. c - sz / 2 + real k * (if sz > 0 then sz / real_of_int (max \<lceil>sz / dl\<rceil> 1) else dl))
       [0..<nat (max \<lceil>sz / dl\<rceil> 1 + 1)]"
  by (simp add: uniform_make_coords_initial_def Let_def)

lemma uniform_cells: "nat (max \<lceil>sz / dl\<rceil> 1 + 1) = nat (max \<lceil>sz / dl\<rceil> 1) + 1"
  by (simp add: nat_add_distrib)

lemma uniform_length: "length (uniform_make_coords_initial dl c sz) = nat (max \<lceil>sz / dl\<rceil> 1) + 1"
  unfolding uniform_eq by (simp only: length_map length_upt uniform_cells)

lemma uniform_nth:
  "i \<le> nat (max \<lceil>sz / dl\<rceil> 1) \<Longrightarrow>
   uniform_make_coords_initial dl c sz ! i =
     c - sz / 2 + real i * (if sz > 0 then sz / real_of_int (max \<lceil>sz / dl\<rceil> 1) else dl)"
  unfolding uniform_eq by (simp add: uniform_cells del: upt_Suc)

lemma uniform_hd: "hd (uniform_make_coords_initial dl c sz) = c - sz / 2"
proof -
  have "uniform_make_coords_initial dl c sz \<noteq> []"
    using uniform_length [of dl c sz] by auto
  then have "hd (uniform_make_coords_initial dl c sz) = uniform_make_coords_initial dl c sz ! 0"
    by (simp add: hd_conv_nth)
  then show ?thesis by (simp add: uniform_nth)
qed

lemma uniform_last:
  "last (uniform_make_coords_initial dl c sz) =
     c - sz / 2 + real (nat (max \<lceil>sz / dl\<rceil> 1)) * (if sz > 0 then sz / real_of_int (max \<lceil>sz / dl\<rceil> 1) else dl)"
proof -
  have ne: "uniform_make_coords_initial dl c sz \<noteq> []"
    using uniform_length [of dl c sz] by auto
  have "last (uniform_make_coords_initial dl c sz)
          = uniform_make_coords_initial dl c sz ! (nat (max \<lceil>sz / dl\<rceil> 1))"
    using ne by (simp add: last_conv_nth uniform_length)
  then show ?thesis by (simp only: uniform_nth order_refl)
qed

lemma uniform_step:
  assumes "i < nat (max \<lceil>sz / dl\<rceil> 1)"
  shows "uniform_make_coords_initial dl c sz ! Suc i - uniform_make_coords_initial dl c sz ! i
           = (if sz > 0 then sz / real_of_int (max \<lceil>sz / dl\<rceil> 1) else dl)"
proof -
  have "Suc i \<le> nat (max \<lceil>sz / dl\<rceil> 1)" "i \<le> nat (max \<lceil>sz / dl\<rceil> 1)"
    using assms by simp_all
  then show ?thesis by (simp only: uniform_nth) (simp add: algebra_simps)
qed

lemma uniform_span_pos:
  assumes "0 < sz"
  shows "last (uniform_make_coords_initial dl c sz) - hd (uniform_make_coords_initial dl c sz) = sz"
proof -
  have "real (nat (max \<lceil>sz / dl\<rceil> 1)) = real_of_int (max \<lceil>sz / dl\<rceil> 1)" by simp
  moreover have "real_of_int (max \<lceil>sz / dl\<rceil> 1) \<noteq> 0" by simp
  ultimately show ?thesis using assms by (simp add: uniform_last uniform_hd)
qed

lemma uniform_span_nonpos:
  assumes "sz \<le> 0" "0 < dl"
  shows "last (uniform_make_coords_initial dl c sz) - hd (uniform_make_coords_initial dl c sz) = dl"
proof -
  have "sz / dl \<le> 0" using assms by (simp add: divide_le_0_iff)
  then have "\<lceil>sz / dl\<rceil> \<le> 0" by (simp add: ceiling_le_iff)
  then have "max \<lceil>sz / dl\<rceil> 1 = 1" by simp
  then show ?thesis using assms by (simp add: uniform_last uniform_hd)
qed

text \<open>
  Claim C2, as the code has it. For a positive step \<open>dl\<close>, any centre and any size \<open>sz\<close>,
  the uniform boundaries are \<open>max(ceil(sz/dl), 1) + 1\<close> points, hence at least two; the
  first one is \<open>c - sz/2\<close>; all intervals have the same width, \<open>sz / max(ceil(sz/dl), 1)\<close>
  when \<open>sz\<close> is positive and \<open>dl\<close> otherwise. The last boundary minus the first is \<open>sz\<close>
  when \<open>sz\<close> is positive; when \<open>sz\<close> is zero or negative it is \<open>dl\<close>, not \<open>sz\<close>.
\<close>

theorem uniform_grid_intervals:
  "0 < dl \<Longrightarrow>
   length (uniform_make_coords_initial dl c sz) = nat (max \<lceil>sz / dl\<rceil> 1) + 1 \<and>
   2 \<le> length (uniform_make_coords_initial dl c sz) \<and>
   hd (uniform_make_coords_initial dl c sz) = c - sz / 2 \<and>
   (\<forall>i < nat (max \<lceil>sz / dl\<rceil> 1).
      uniform_make_coords_initial dl c sz ! Suc i - uniform_make_coords_initial dl c sz ! i
        = (if 0 < sz then sz / real_of_int (max \<lceil>sz / dl\<rceil> 1) else dl)) \<and>
   (0 < sz \<longrightarrow>
      last (uniform_make_coords_initial dl c sz) - hd (uniform_make_coords_initial dl c sz) = sz) \<and>
   (sz \<le> 0 \<longrightarrow>
      last (uniform_make_coords_initial dl c sz) - hd (uniform_make_coords_initial dl c sz) = dl)"
proof (intro conjI impI allI)
  assume dl: "0 < dl"
  show "length (uniform_make_coords_initial dl c sz) = nat (max \<lceil>sz / dl\<rceil> 1) + 1"
    by (rule uniform_length)
  show "2 \<le> length (uniform_make_coords_initial dl c sz)"
    by (simp add: uniform_length)
  show "hd (uniform_make_coords_initial dl c sz) = c - sz / 2"
    by (rule uniform_hd)
  show "\<And>i. i < nat (max \<lceil>sz / dl\<rceil> 1) \<Longrightarrow>
      uniform_make_coords_initial dl c sz ! Suc i - uniform_make_coords_initial dl c sz ! i
        = (if 0 < sz then sz / real_of_int (max \<lceil>sz / dl\<rceil> 1) else dl)"
    by (rule uniform_step)
  show "0 < sz \<Longrightarrow>
      last (uniform_make_coords_initial dl c sz) - hd (uniform_make_coords_initial dl c sz) = sz"
    by (rule uniform_span_pos)
  show "sz \<le> 0 \<Longrightarrow>
      last (uniform_make_coords_initial dl c sz) - hd (uniform_make_coords_initial dl c sz) = dl"
    using dl by (simp add: uniform_span_nonpos)
qed

text \<open>Scenario A of the specification: step \<open>0.1\<close>, centre \<open>0\<close>, size \<open>1\<close>.\<close>

lemma uniform_scenario_A:
  "uniform_make_coords_initial (1/10) 0 1 =
     [-1/2, -2/5, -3/10, -1/5, -1/10, 0, 1/10, 1/5, 3/10, 2/5, 1/2]"
  by (simp add: uniform_make_coords_initial_def upt_rec)

text \<open>The theorem at step \<open>0.1\<close>, centre \<open>0\<close> and size \<open>1\<close>.\<close>

theorem uniform_grid_intervals_witness:
  "(0::real) < 1/10 \<and>
   length (uniform_make_coords_initial (1/10) 0 1) = 11 \<and>
   hd (uniform_make_coords_initial (1/10) 0 1) = - 1/2 \<and>
   last (uniform_make_coords_initial (1/10) 0 1) - hd (uniform_make_coords_initial (1/10) 0 1) = 1"
  using uniform_grid_intervals [of "1/10" 0 1] by simp

text \<open>Claim C2 as written fails at size \<open>0\<close>: with step \<open>1\<close> and centre \<open>0\<close> the grid is
  \<open>[0, 1]\<close>, whose extent is \<open>1\<close> and not the size \<open>0\<close>.\<close>

theorem uniform_span_counterexample:
  "last (uniform_make_coords_initial 1 0 0) - hd (uniform_make_coords_initial 1 0 0) \<noteq> 0"
  by (simp add: uniform_make_coords_initial_def upt_rec)

text \<open>
  Claim C9. For a positive step \<open>dl\<close> and size exactly \<open>0\<close> the uniform boundaries are
  \<open>[c, c + dl]\<close>: one cell of width \<open>dl\<close> that starts at the centre, so the midpoint of
  the grid is not the centre and its extent is \<open>dl\<close>, not zero.
\<close>

theorem uniform_zero_size:
  "0 < dl \<Longrightarrow>
   uniform_make_coords_initial dl c 0 = [c, c + dl] \<and>
   (hd (uniform_make_coords_initial dl c 0) + last (uniform_make_coords_initial dl c 0)) / 2 \<noteq> c \<and>
   c \<le> hd (uniform_make_coords_initial dl c 0) \<and>
   last (uniform_make_coords_initial dl c 0) - hd (uniform_make_coords_initial dl c 0) = dl"
proof -
  assume "0 < dl"
  have "uniform_make_coords_initial dl c 0 = [c, c + dl]"
    by (simp add: uniform_make_coords_initial_def upt_rec)
  with \<open>0 < dl\<close> show ?thesis by simp
qed

text \<open>The zero-size grid at step \<open>0.1\<close> and centre \<open>2\<close>.\<close>

theorem uniform_zero_size_witness:
  "(0::real) < 1/10 \<and> uniform_make_coords_initial (1/10) 2 0 = [2, 21/10]"
  using uniform_zero_size [of "1/10" 2] by simp

subsection \<open>The per-axis build\<close>

lemma make_coords_build_axis:
  "make_coords g c sz axis structures symmetry wvl num_pml_layers =
     build_axis g c sz axis structures symmetry wvl num_pml_layers"
  by (simp add: make_coords_def build_axis_def fold_symmetry_def Let_def
      split: option.splits sum.splits list.splits)

lemma make_coords_no_symmetry:
  "make_coords g c sz axis structures 0 wvl num_pml_layers =
     (case make_coords_initial g c sz axis structures wvl
             (fst num_pml_layers = 0 \<and> snd num_pml_layers = 0) of
        None \<Rightarrow> None
      | Some (Inl e) \<Rightarrow> Some (Inl e)
      | Some (Inr initial) \<Rightarrow> Some (Inr (add_pml_to_bounds num_pml_layers initial)))"
  by (simp add: make_coords_def Let_def split: option.splits sum.splits)

lemma make_grid_axes:
  assumes "make_grid C_0 gs structures (symx, symy, symz) sources (px, py, pz) = Some (Inr (bx, by, bz))"
  shows "\<exists>s0 rest wvl cx cy cz sx sy sz.
           structures = s0 # rest \<and> geometry_center s0 = (cx, cy, cz) \<and> geometry_size s0 = (sx, sy, sz) \<and>
           get_wavelength C_0 gs sources = Inr wvl \<and>
           make_coords (grid_x gs) cx sx 0 structures symx wvl px = Some (Inr bx) \<and>
           make_coords (grid_y gs) cy sy 1 structures symy wvl py = Some (Inr by) \<and>
           make_coords (grid_z gs) cz sz 2 structures symz wvl pz = Some (Inr bz)"
  using assms
  by (auto simp: make_grid_def Let_def split: list.splits sum.splits option.splits prod.splits)

text \<open>
  Claim C5. For every strategy and axis, \<open>make_coords\<close> is the composition described by
  \<open>build_axis\<close>: initial boundaries, then the symmetry fold, then the absorber extension,
  with the periodicity flag true if and only if both layer counts are zero. With
  symmetry flag \<open>0\<close> the fold is skipped: the extension is applied to the initial
  boundaries. Whenever \<open>make_grid\<close> returns a grid, the wavelength was resolved once
  and each of the three boundary sequences is the result of that composition on its own
  axis, with the centre and size of the first structure.
\<close>

theorem make_coords_pipeline:
  "make_coords g c sz axis structures symmetry wvl num_pml_layers =
     build_axis g c sz axis structures symmetry wvl num_pml_layers \<and>
   make_coords g c sz axis structures 0 wvl num_pml_layers =
     (case make_coords_initial g c sz axis structures wvl
             (fst num_pml_layers = 0 \<and> snd num_pml_layers = 0) of
        None \<Rightarrow> None
      | Some (Inl e) \<Rightarrow> Some (Inl e)
      | Some (Inr initial) \<Rightarrow> Some (Inr (add_pml_to_bounds num_pml_layers initial))) \<and>
   (make_grid C_0 gs structs (symx, symy, symz) sources (px, py, pz) = Some (Inr (bx, by, bz)) \<longrightarrow>
      (\<exists>s0 rest wvl' cx cy cz sx sy sz'.
         structs = s0 # rest \<and> geometry_center s0 = (cx, cy, cz) \<and> geometry_size s0 = (sx, sy, sz') \<and>
         get_wavelength C_0 gs sources = Inr wvl' \<and>
         build_axis (grid_x gs) cx sx 0 structs symx wvl' px = Some (Inr bx) \<and>
         build_axis (grid_y gs) cy sy 1 structs symy wvl' py = Some (Inr by) \<and>
         build_axis (grid_z gs) cz sz' 2 structs symz wvl' pz = Some (Inr bz)))"
proof (intro conjI impI)
  show "make_coords g c sz axis structures symmetry wvl num_pml_layers =
     build_axis g c sz axis structures symmetry wvl num_pml_layers"
    by (rule make_coords_build_axis)
  show "make_coords g c sz axis structures 0 wvl num_pml_layers =
     (case make_coords_initial g c sz axis structures wvl
             (fst num_pml_layers = 0 \<and> snd num_pml_layers = 0) of
        None \<Rightarrow> None
      | Some (Inl e) \<Rightarrow> Some (Inl e)
      | Some (Inr initial) \<Rightarrow> Some (Inr (add_pml_to_bounds num_pml_layers initial)))"
    by (rule make_coords_no_symmetry)
next
  assume "make_grid C_0 gs structs (symx, symy, symz) sources (px, py, pz) = Some (Inr (bx, by, bz))"
  from make_grid_axes [OF this]
  show "\<exists>s0 rest wvl' cx cy cz sx sy sz'.
         structs = s0 # rest \<and> geometry_center s0 = (cx, cy, cz) \<and> geometry_size s0 = (sx, sy, sz') \<and>
         get_wavelength C_0 gs sources = Inr wvl' \<and>
         build_axis (grid_x gs) cx sx 0 structs symx wvl' px = Some (Inr bx) \<and>
         build_axis (grid_y gs) cy sy 1 structs symy wvl' py = Some (Inr by) \<and>
         build_axis (grid_z gs) cz sz' 2 structs symz wvl' pz = Some (Inr bz)"
    unfolding make_coords_build_axis by blast
qed

lemma uniform_half: "uniform_make_coords_initial (1/2) 0 1 = [-1/2, 0, 1/2]"
  by (simp add: uniform_make_coords_initial_def upt_rec)

text \<open>A uniform grid of step \<open>0.5\<close> on a domain of size \<open>1\<close>: one axis with symmetry and
  one absorber layer, and a whole grid without either.\<close>

theorem make_coords_pipeline_witness:
  "make_coords (UniformGrid (1/2)) 0 1 0 [] 1 None (1, 0) = Some (Inr [-1, -1/2, 0, 1/2]) \<and>
   make_grid 300 \<lparr>grid_x = UniformGrid (1/2), grid_y = UniformGrid (1/2), grid_z = UniformGrid (1/2), wavelength = None\<rparr>
      [\<lparr>geometry_center = (0, 0, 0), geometry_size = (1, 1, 1)\<rparr>] (0, 0, 0) [] ((0, 0), (0, 0), (0, 0))
     = Some (Inr ([-1/2, 0, 1/2], [-1/2, 0, 1/2], [-1/2, 0, 1/2])) \<and>
   build_axis (UniformGrid (1/2)) 0 1 0 [\<lparr>geometry_center = (0, 0, 0), geometry_size = (1, 1, 1)\<rparr>] 0 None (0, 0)
     = Some (Inr [-1/2, 0, 1/2])"
proof -
  let ?gs = "\<lparr>grid_x = UniformGrid (1/2), grid_y = UniformGrid (1/2), grid_z = UniformGrid (1/2), wavelength = None\<rparr>"
  let ?st = "[\<lparr>geometry_center = (0, 0, 0), geometry_size = (1, 1, 1)\<rparr>]"
  have a: "build_axis (UniformGrid (1/2)) 0 1 0 [] 1 None (1, 0) = Some (Inr [-1, -1/2, 0, 1/2])"
    by (simp add: build_axis_def uniform_half fold_symmetry_def add_pml_to_bounds_def)
  have g: "make_grid 300 ?gs ?st (0, 0, 0) [] ((0, 0), (0, 0), (0, 0))
     = Some (Inr ([-1/2, 0, 1/2], [-1/2, 0, 1/2], [-1/2, 0, 1/2]))"
    by (simp add: make_grid_def get_wavelength_def auto_grid_used_def make_coords_def uniform_half
        add_pml_to_bounds_def)
  have w: "get_wavelength 300 ?gs [] = Inr None"
    by (simp add: get_wavelength_def auto_grid_used_def)
  show ?thesis
    using a g w make_coords_pipeline [of "UniformGrid (1/2)" 0 1 0 "[]" 1 None "(1, 0)" 300 ?gs ?st 0 0 0 "[]"
        "(0, 0)" "(0, 0)" "(0, 0)" "[-1/2, 0, 1/2]" "[-1/2, 0, 1/2]" "[-1/2, 0, 1/2]"]
    by auto
qed

subsection \<open>Wavelength\<close>

lemma isclose_refl: "isclose f f"
  by (simp add: isclose_def)

lemma get_wavelength_explicit:
  "wavelength gs \<noteq> None \<or> \<not> auto_grid_used gs \<Longrightarrow> get_wavelength C_0 gs sources = Inr (wavelength gs)"
  by (auto simp: get_wavelength_def)

lemma get_wavelength_no_sources:
  "wavelength gs = None \<Longrightarrow> auto_grid_used gs \<Longrightarrow> get_wavelength C_0 gs [] = Inl SetupError"
  by (simp add: get_wavelength_def)

lemma get_wavelength_disagree:
  assumes "wavelength gs = None" "auto_grid_used gs"
    and "\<exists>s\<in>set sources. \<not> isclose (freq0 (source_time s)) (freq0 (source_time (hd sources)))"
  shows "get_wavelength C_0 gs sources = Inl SetupError"
proof -
  from assms(3) have ne: "sources \<noteq> []" by auto
  then have h: "map (\<lambda>s. freq0 (source_time s)) sources ! 0 = freq0 (source_time (hd sources))"
    by (cases sources) simp_all
  have "\<not> list_all (\<lambda>f. isclose f (freq0 (source_time (hd sources)))) (map (\<lambda>s. freq0 (source_time s)) sources)"
    using assms(3) by (auto simp: list_all_iff)
  then show ?thesis using assms(1,2) ne h by (simp add: get_wavelength_def Let_def)
qed

lemma get_wavelength_agree:
  assumes "wavelength gs = None" "auto_grid_used gs" "sources \<noteq> []"
    and "\<forall>s\<in>set sources. isclose (freq0 (source_time s)) (freq0 (source_time (hd sources)))"
  shows "get_wavelength C_0 gs sources = Inr (Some (C_0 / freq0 (source_time (hd sources))))"
proof -
  have h: "map (\<lambda>s. freq0 (source_time s)) sources ! 0 = freq0 (source_time (hd sources))"
    using assms(3) by (cases sources) simp_all
  have "list_all (\<lambda>f. isclose f (freq0 (source_time (hd sources)))) (map (\<lambda>s. freq0 (source_time s)) sources)"
    using assms(4) by (auto simp: list_all_iff)
  then show ?thesis using assms(1,2,3) h by (simp add: get_wavelength_def Let_def)
qed

text \<open>
  Claim C3. If a wavelength is set, or no axis uses \<open>AutoGrid\<close>, \<open>get_wavelength\<close> returns
  the wavelength field as it is (possibly \<open>None\<close>), whatever the sources. Otherwise: with
  no source it raises \<open>SetupError\<close>; if some source's centre frequency is not close
  (\<open>np.isclose\<close>) to the first source's, it raises \<open>SetupError\<close>; if there is a source,
  all are close to the first one and the first frequency is positive, the result is
  \<open>C_0\<close> divided by the first source's frequency; so it is for a single source of
  positive frequency.
\<close>

theorem get_wavelength_policy:
  "(wavelength gs \<noteq> None \<or> \<not> auto_grid_used gs \<longrightarrow>
      get_wavelength C_0 gs sources = Inr (wavelength gs)) \<and>
   (wavelength gs = None \<and> auto_grid_used gs \<longrightarrow>
      (sources = [] \<longrightarrow> get_wavelength C_0 gs sources = Inl SetupError) \<and>
      ((\<exists>s\<in>set sources. \<not> isclose (freq0 (source_time s)) (freq0 (source_time (hd sources)))) \<longrightarrow>
         get_wavelength C_0 gs sources = Inl SetupError) \<and>
      (sources \<noteq> [] \<and> 0 < freq0 (source_time (hd sources)) \<and>
       (\<forall>s\<in>set sources. isclose (freq0 (source_time s)) (freq0 (source_time (hd sources)))) \<longrightarrow>
         get_wavelength C_0 gs sources = Inr (Some (C_0 / freq0 (source_time (hd sources))))) \<and>
      (\<forall>s. 0 < freq0 (source_time s) \<longrightarrow>
         get_wavelength C_0 gs [s] = Inr (Some (C_0 / freq0 (source_time s)))))"
proof (intro conjI impI allI)
  show "wavelength gs \<noteq> None \<or> \<not> auto_grid_used gs \<Longrightarrow>
      get_wavelength C_0 gs sources = Inr (wavelength gs)"
    by (rule get_wavelength_explicit)
next
  assume "wavelength gs = None \<and> auto_grid_used gs" "sources = []"
  then show "get_wavelength C_0 gs sources = Inl SetupError"
    by (simp add: get_wavelength_no_sources)
next
  assume "wavelength gs = None \<and> auto_grid_used gs"
    "\<exists>s\<in>set sources. \<not> isclose (freq0 (source_time s)) (freq0 (source_time (hd sources)))"
  then show "get_wavelength C_0 gs sources = Inl SetupError"
    by (simp add: get_wavelength_disagree)
next
  assume "wavelength gs = None \<and> auto_grid_used gs"
    "sources \<noteq> [] \<and> 0 < freq0 (source_time (hd sources)) \<and>
       (\<forall>s\<in>set sources. isclose (freq0 (source_time s)) (freq0 (source_time (hd sources))))"
  then show "get_wavelength C_0 gs sources = Inr (Some (C_0 / freq0 (source_time (hd sources))))"
    by (simp add: get_wavelength_agree)
next
  fix s
  assume "wavelength gs = None \<and> auto_grid_used gs"
  then show "get_wavelength C_0 gs [s] = Inr (Some (C_0 / freq0 (source_time s)))"
    using get_wavelength_agree [of gs "[s]" C_0] by (simp add: isclose_refl)
qed

text \<open>Three runs with \<open>C_0 = 300\<close>: no \<open>AutoGrid\<close> axis and no source; an \<open>AutoGrid\<close> axis
  with two sources of frequency \<open>200\<close>; the same with frequencies \<open>200\<close> and \<open>100\<close>.\<close>

theorem get_wavelength_policy_witness:
  "get_wavelength 300 \<lparr>grid_x = UniformGrid 1, grid_y = UniformGrid 1, grid_z = UniformGrid 1, wavelength = None\<rparr>
     [] = Inr None \<and>
   get_wavelength 300
     \<lparr>grid_x = AutoGrid 10 (7/5) \<lparr>parse_structures = (\<lambda>_ _ _ _. ([], [])), make_grid_multiple_intervals = (\<lambda>_ _ _ _. [])\<rparr>,
      grid_y = UniformGrid 1, grid_z = UniformGrid 1, wavelength = None\<rparr>
     [\<lparr>source_time = \<lparr>freq0 = 200\<rparr>\<rparr>, \<lparr>source_time = \<lparr>freq0 = 200\<rparr>\<rparr>] = Inr (Some (3/2)) \<and>
   get_wavelength 300
     \<lparr>grid_x = AutoGrid 10 (7/5) \<lparr>parse_structures = (\<lambda>_ _ _ _. ([], [])), make_grid_multiple_intervals = (\<lambda>_ _ _ _. [])\<rparr>,
      grid_y = UniformGrid 1, grid_z = UniformGrid 1, wavelength = None\<rparr>
     [\<lparr>source_time = \<lparr>freq0 = 200\<rparr>\<rparr>, \<lparr>source_time = \<lparr>freq0 = 100\<rparr>\<rparr>] = Inl SetupError"
  using get_wavelength_policy [of "\<lparr>grid_x = UniformGrid 1, grid_y = UniformGrid 1, grid_z = UniformGrid 1, wavelength = None\<rparr>" 300 "[]"]
    get_wavelength_policy [of "\<lparr>grid_x = AutoGrid 10 (7/5) \<lparr>parse_structures = (\<lambda>_ _ _ _. ([], [])), make_grid_multiple_intervals = (\<lambda>_ _ _ _. [])\<rparr>,
      grid_y = UniformGrid 1, grid_z = UniformGrid 1, wavelength = None\<rparr>" 300
      "[\<lparr>source_time = \<lparr>freq0 = 200\<rparr>\<rparr>, \<lparr>source_time = \<lparr>freq0 = 200\<rparr>\<rparr>]"]
    get_wavelength_policy [of "\<lparr>grid_x = AutoGrid 10 (7/5) \<lparr>parse_structures = (\<lambda>_ _ _ _. ([], [])), make_grid_multiple_intervals = (\<lambda>_ _ _ _. [])\<rparr>,
      grid_y = UniformGrid 1, grid_z = UniformGrid 1, wavelength = None\<rparr>" 300
      "[\<lparr>source_time = \<lparr>freq0 = 200\<rparr>\<rparr>, \<lparr>source_time = \<lparr>freq0 = 100\<rparr>\<rparr>]"]
  by (simp add: auto_grid_used_def isclose_def)

subsection \<open>Construction of a custom grid with no step\<close>

text \<open>
  Claim C8 says that an empty \<open>dl\<close> is rejected when the \<open>CustomGrid\<close> is constructed. It
  is not: the construction accepts the empty list, and the failure comes at build time,
  when the initial boundaries are computed and \<open>dl[0]\<close> raises \<open>IndexError\<close>.
\<close>

theorem custom_empty_dl_accepted:
  "CustomGrid_init [] = Inr (CustomGrid []) \<and>
   make_coords_initial (CustomGrid []) c sz axis structures wvl is_periodic = Some (Inl IndexError)"
  by (simp add: CustomGrid_init_def custom_make_coords_initial_def)

subsection \<open>Symmetry fold\<close>











text \<open>The fold of the uniform grid of three cells on \<open>[-1/2, 1/2]\<close> about \<open>0\<close>: the first
  boundary closest to the centre, \<open>-1/6\<close>, is moved onto it.\<close>

lemma fold_uniform_example:
  "fold_symmetry 0 1 [-1/2, -1/6, 1/6, 1/2] = Inr [-2/3, -1/3, 0, 1/3, 2/3]"
  by (simp add: fold_symmetry_def)




text \<open>The uniform strategy returns a strictly increasing sequence, so the two theorems
  apply to every uniform axis.\<close>

lemma uniform_strictly_increasing:
  assumes "0 < dl"
  shows "sorted_wrt (<) (uniform_make_coords_initial dl c sz)"
proof -
  let ?n = "max \<lceil>sz / dl\<rceil> 1"
  let ?d = "if sz > 0 then sz / real_of_int ?n else dl"
  have "0 < real_of_int ?n" by simp
  then have d: "0 < ?d" using assms by simp
  have "sorted_wrt (<) [0..<nat (?n + 1)]" by (simp add: strict_sorted_iff)
  then have "sorted_wrt (\<lambda>j k. c - sz / 2 + real j * ?d < c - sz / 2 + real k * ?d) [0..<nat (?n + 1)]"
    by (rule sorted_wrt_mono_rel [rotated]) (use d in simp)
  then show ?thesis
    by (simp add: uniform_make_coords_initial_def Let_def sorted_wrt_map)
qed

subsection \<open>Custom grid\<close>

lemma repeat_below_Suc: "repeat_below d b (Suc k) = repeat_below d (b - d) k @ [b - d]"
proof -
  have "\<And>i. i < k \<Longrightarrow> b - real (Suc k - i) * d = b - d - real (k - i) * d"
    by (simp add: Suc_diff_le algebra_simps)
  then have "map (\<lambda>i. b - real (Suc k - i) * d) [0..<k] = map (\<lambda>i. b - d - real (k - i) * d) [0..<k]"
    by simp
  then show ?thesis by (simp add: repeat_below_def)
qed

lemma repeat_above_Suc: "repeat_above d e (Suc m) = (e + d) # repeat_above d (e + d) m"
proof -
  have "[0..<Suc m] = 0 # map Suc [0..<m]"
    by (simp add: upt_conv_Cons map_Suc_upt del: upt_Suc)
  then have "repeat_above d e (Suc m) = (e + d) # map (\<lambda>j. e + real (Suc (Suc j)) * d) [0..<m]"
    by (simp add: repeat_above_def o_def del: upt_Suc)
  moreover have "map (\<lambda>j. e + real (Suc (Suc j)) * d) [0..<m] = map (\<lambda>j. e + d + real (Suc j) * d) [0..<m]"
    by (simp add: algebra_simps)
  ultimately show ?thesis by (simp add: repeat_above_def)
qed

text \<open>The first loop, by induction on the number \<open>k\<close> of steps of size \<open>d\<close> that fit between
  the lower bound and the first boundary.\<close>

lemma prepend_loop_steps:
  "0 < d \<Longrightarrow> b - lo < real (Suc k) * d \<Longrightarrow> k = 0 \<or> real k * d \<le> b - lo \<Longrightarrow>
   prepend_loop d lo (b # bs) = Some (Inr (repeat_below d b k @ b # bs))"
proof (induction k arbitrary: b bs)
  case 0
  then have "\<not> lo \<le> b - d" by simp
  then show ?case by (subst prepend_loop.simps) (simp add: repeat_below_def)
next
  case (Suc k)
  from Suc.prems(3) have le: "real (Suc k) * d \<le> b - lo" by simp
  have "d \<le> real (Suc k) * d" using Suc.prems(1) by simp
  with le have go: "lo \<le> b - d" by simp
  have 1: "(b - d) - lo < real (Suc k) * d" using Suc.prems(2) by (simp add: algebra_simps)
  have 2: "k = 0 \<or> real k * d \<le> (b - d) - lo" using le by (simp add: algebra_simps)
  have "prepend_loop d lo (b # bs) = prepend_loop d lo ((b - d) # b # bs)"
    using go by (subst prepend_loop.simps) simp
  also have "\<dots> = Some (Inr (repeat_below d (b - d) k @ (b - d) # b # bs))"
    using Suc.prems(1) 1 2 by (rule Suc.IH)
  finally show ?case by (simp add: repeat_below_Suc)
qed

text \<open>The second loop, in the same way.\<close>

lemma append_loop_steps:
  "0 < d \<Longrightarrow> bs \<noteq> [] \<Longrightarrow> hi - last bs < real (Suc m) * d \<Longrightarrow> m = 0 \<or> real m * d \<le> hi - last bs \<Longrightarrow>
   append_loop d hi bs = Some (Inr (bs @ repeat_above d (last bs) m))"
proof (induction m arbitrary: bs)
  case 0
  then have "\<not> last bs + d \<le> hi" by simp
  then show ?case using "0.prems"(2)
    by (subst append_loop.simps) (simp add: repeat_above_def split: list.splits)
next
  case (Suc m)
  from Suc.prems(4) have le: "real (Suc m) * d \<le> hi - last bs" by simp
  have "d \<le> real (Suc m) * d" using Suc.prems(1) by simp
  with le have go: "last bs + d \<le> hi" by simp
  let ?bs = "bs @ [last bs + d]"
  have 0: "?bs \<noteq> []" by simp
  have 1: "hi - last ?bs < real (Suc m) * d" using Suc.prems(3) by (simp add: algebra_simps)
  have 2: "m = 0 \<or> real m * d \<le> hi - last ?bs" using le by (simp add: algebra_simps)
  have "append_loop d hi bs = append_loop d hi ?bs"
    using go Suc.prems(2) by (subst append_loop.simps) (simp split: list.splits)
  also have "\<dots> = Some (Inr (?bs @ repeat_above d (last ?bs) m))"
    using Suc.prems(1) 0 1 2 by (rule Suc.IH)
  finally show ?case by (simp add: repeat_above_Suc)
qed

text \<open>For a positive step the number of steps that fit is a floor.\<close>

lemma floor_steps:
  assumes "0 < (d :: real)"
  shows "g < real (Suc (nat \<lfloor>g / d\<rfloor>)) * d"
    and "nat \<lfloor>g / d\<rfloor> = 0 \<or> real (nat \<lfloor>g / d\<rfloor>) * d \<le> g"
proof -
  have "g / d < real_of_int \<lfloor>g / d\<rfloor> + 1" by linarith
  moreover have "real_of_int \<lfloor>g / d\<rfloor> \<le> real (nat \<lfloor>g / d\<rfloor>)" by simp
  moreover have "real (Suc (nat \<lfloor>g / d\<rfloor>)) = real (nat \<lfloor>g / d\<rfloor>) + 1" by simp
  ultimately have "g / d < real (Suc (nat \<lfloor>g / d\<rfloor>))" by linarith
  then show "g < real (Suc (nat \<lfloor>g / d\<rfloor>)) * d"
    using assms by (simp add: pos_divide_less_eq)
  show "nat \<lfloor>g / d\<rfloor> = 0 \<or> real (nat \<lfloor>g / d\<rfloor>) * d \<le> g"
  proof (cases "0 < \<lfloor>g / d\<rfloor>")
    case True
    then have "real (nat \<lfloor>g / d\<rfloor>) = real_of_int \<lfloor>g / d\<rfloor>" by simp
    moreover have "real_of_int \<lfloor>g / d\<rfloor> \<le> g / d" by simp
    ultimately have "real (nat \<lfloor>g / d\<rfloor>) \<le> g / d" by simp
    then show ?thesis using assms by (simp add: pos_le_divide_eq)
  next
    case False
    then show ?thesis by simp
  qed
qed

lemma prepend_loop_terminates:
  assumes "0 < d"
  shows "prepend_loop d lo (b # bs) = Some (Inr (repeat_below d b (nat \<lfloor>(b - lo) / d\<rfloor>) @ b # bs))"
  using assms floor_steps [OF assms, of "b - lo"] by (intro prepend_loop_steps)

lemma append_loop_terminates:
  assumes "0 < d" "bs \<noteq> []"
  shows "append_loop d hi bs = Some (Inr (bs @ repeat_above d (last bs) (nat \<lfloor>(hi - last bs) / d\<rfloor>)))"
  using assms floor_steps [OF assms(1), of "hi - last bs"] by (intro append_loop_steps)

text \<open>The result of the custom strategy when the clipped sequence is not empty.\<close>

lemma custom_result:
  assumes "dl \<noteq> []" "0 < hd dl" "0 < last dl" "custom_clipped dl c sz \<noteq> []"
  shows "custom_make_coords_initial dl c sz =
           Some (Inr (repeat_below (hd dl) (hd (custom_clipped dl c sz))
                        (nat \<lfloor>(hd (custom_clipped dl c sz) - (c - sz / 2)) / hd dl\<rfloor>)
                      @ custom_clipped dl c sz
                      @ repeat_above (last dl) (last (custom_clipped dl c sz))
                          (nat \<lfloor>(c + sz / 2 - last (custom_clipped dl c sz)) / last dl\<rfloor>)))"
proof -
  let ?cl = "custom_clipped dl c sz"
  let ?k = "nat \<lfloor>(hd ?cl - (c - sz / 2)) / hd dl\<rfloor>"
  obtain b rest where cl: "?cl = b # rest" using assms(4) by (cases ?cl) auto
  have p: "prepend_loop (hd dl) (c - sz / 2) ?cl = Some (Inr (repeat_below (hd dl) (hd ?cl) ?k @ ?cl))"
    unfolding cl using prepend_loop_terminates [OF assms(2), of "c - sz / 2" b rest] by simp
  have l: "last (repeat_below (hd dl) (hd ?cl) ?k @ ?cl) = last ?cl" using assms(4) by simp
  have a: "append_loop (last dl) (c + sz / 2) (repeat_below (hd dl) (hd ?cl) ?k @ ?cl)
        = Some (Inr ((repeat_below (hd dl) (hd ?cl) ?k @ ?cl)
            @ repeat_above (last dl) (last ?cl) (nat \<lfloor>(c + sz / 2 - last ?cl) / last dl\<rfloor>)))"
    using append_loop_terminates [OF assms(3), of "repeat_below (hd dl) (hd ?cl) ?k @ ?cl" "c + sz / 2"]
      assms(4) unfolding l by simp
  obtain d0 ds where dl: "dl = d0 # ds" using assms(1) by (cases dl) auto
  show ?thesis
    unfolding custom_make_coords_initial_def Let_def
    by (subst dl) (simp only: list.case p a option.case sum.case append_assoc)
qed



lemma repeat_below_bounds:
  assumes "0 < d" "x \<in> set (repeat_below d b k)"
  shows "b - real k * d \<le> x \<and> x < b"
proof -
  from assms(2) obtain i where i: "i < k" "x = b - real (k - i) * d"
    by (auto simp: repeat_below_def)
  define n where "n = k - i"
  have "0 < n" "n \<le> k" using i(1) by (simp_all add: n_def)
  then have "0 < real n" "real n \<le> real k" by simp_all
  then have "0 < real n * d" "real n * d \<le> real k * d"
    using assms(1) by simp_all
  moreover have "x = b - real n * d" using i(2) by (simp only: n_def)
  ultimately show ?thesis by simp
qed

lemma repeat_above_bounds:
  assumes "0 < d" "x \<in> set (repeat_above d e m)"
  shows "e < x \<and> x \<le> e + real m * d"
proof -
  from assms(2) obtain j where j: "j < m" "x = e + real (Suc j) * d"
    by (auto simp: repeat_above_def)
  have "0 < real (Suc j)" "real (Suc j) \<le> real m" using j(1) by simp_all
  then have "0 < real (Suc j) * d" "real (Suc j) * d \<le> real m * d"
    using assms(1) by (simp_all del: of_nat_Suc)
  then show ?thesis using j(2) by simp
qed












text \<open>Scenario B of the specification: the steps span the size, nothing is added. With
  size \<open>2\<close> three boundaries are added on each side. With one step of \<open>10\<close> and size
  \<open>1\<close> the clipped sequence is empty and the first loop raises \<open>IndexError\<close>.\<close>

lemma custom_scenario_B:
  "custom_make_coords_initial [1/5, 1/10, 1/5] 0 (1/2) = Some (Inr [-1/4, -1/20, 1/20, 1/4])"
  by (simp add: custom_make_coords_initial_def custom_clipped_def cumsum_def
      prepend_loop.simps append_loop.simps)

lemma custom_extended_example:
  "custom_make_coords_initial [1/5, 1/10, 1/5] 0 2 =
     Some (Inr [-17/20, -13/20, -9/20, -1/4, -1/20, 1/20, 1/4, 9/20, 13/20, 17/20])"
  by (simp add: custom_make_coords_initial_def custom_clipped_def cumsum_def
      prepend_loop.simps append_loop.simps)

lemma custom_clipped_empty_example:
  "custom_make_coords_initial [10] 0 1 = Some (Inl IndexError)"
  by (simp add: custom_make_coords_initial_def custom_clipped_def cumsum_def
      prepend_loop.simps append_loop.simps)

subsection \<open>The custom strategy returns a strictly increasing sequence\<close>

text \<open>With positive steps the cumulative sums increase strictly, and so do the boundaries
  that the loops add on either side: whatever the custom strategy returns satisfies the
  hypothesis of the two theorems on the symmetry fold.\<close>

lemma cumsum_from_increasing:
  "\<forall>d\<in>set xs. 0 < d \<Longrightarrow> sorted_wrt (<) (a # cumsum_from a xs)"
proof (induction xs arbitrary: a)
  case Nil
  then show ?case by simp
next
  case (Cons x xs)
  then have ih: "sorted_wrt (<) ((a + x) # cumsum_from (a + x) xs)" by simp
  have "0 < x" using Cons.prems by simp
  then have "\<forall>y\<in>set ((a + x) # cumsum_from (a + x) xs). a < y" using ih by auto
  with ih show ?case by simp
qed

lemma custom_clipped_increasing:
  assumes "\<forall>d\<in>set dl. 0 < d"
  shows "sorted_wrt (<) (custom_clipped dl c sz)"
proof -
  have "sorted_wrt (<) (0 # cumsum dl)"
    unfolding cumsum_def using assms by (rule cumsum_from_increasing)
  then have "sorted_wrt (<) (map (\<lambda>x. x + (c - last (0 # cumsum dl) / 2)) (0 # cumsum dl))"
    unfolding sorted_wrt_map by simp
  then show ?thesis
    unfolding custom_clipped_def Let_def by (intro sorted_wrt_filter)
qed

lemma repeat_below_increasing:
  assumes "0 < d"
  shows "sorted_wrt (<) (repeat_below d b k)"
proof -
  have "sorted_wrt (<) [0..<k]" by (simp add: strict_sorted_iff)
  then have "sorted_wrt (\<lambda>i j. b - real (k - i) * d < b - real (k - j) * d) [0..<k]"
  proof (rule sorted_wrt_mono_rel [rotated])
    fix i j
    assume "i \<in> set [0..<k]" "j \<in> set [0..<k]" "i < j"
    then have "real (k - j) < real (k - i)" by simp
    then have "real (k - j) * d < real (k - i) * d" using assms by simp
    then show "b - real (k - i) * d < b - real (k - j) * d" by simp
  qed
  then show ?thesis by (simp add: repeat_below_def sorted_wrt_map)
qed

lemma repeat_above_increasing:
  assumes "0 < d"
  shows "sorted_wrt (<) (repeat_above d e m)"
proof -
  have "sorted_wrt (<) [0..<m]" by (simp add: strict_sorted_iff)
  then have "sorted_wrt (\<lambda>i j. e + real (Suc i) * d < e + real (Suc j) * d) [0..<m]"
  proof (rule sorted_wrt_mono_rel [rotated])
    fix i j
    assume "i \<in> set [0..<m]" "j \<in> set [0..<m]" "i < j"
    then have "real (Suc i) < real (Suc j)" by simp
    then have "real (Suc i) * d < real (Suc j) * d" using assms by (simp del: of_nat_Suc)
    then show "e + real (Suc i) * d < e + real (Suc j) * d" by simp
  qed
  then show ?thesis by (simp add: repeat_above_def sorted_wrt_map)
qed

lemma sorted_hd_le: "sorted_wrt (<) (xs :: real list) \<Longrightarrow> x \<in> set xs \<Longrightarrow> hd xs \<le> x"
  by (cases xs) auto

lemma sorted_le_last: "sorted_wrt (<) (xs :: real list) \<Longrightarrow> x \<in> set xs \<Longrightarrow> x \<le> last xs"
proof (induction xs)
  case Nil
  then show ?case by simp
next
  case (Cons a xs)
  show ?case
  proof (cases "xs = []")
    case True
    with Cons.prems show ?thesis by simp
  next
    case False
    then have l: "last xs \<in> set xs" by simp
    show ?thesis
    proof (cases "x = a")
      case True
      then have "x < last xs" using Cons.prems(1) l by simp
      then show ?thesis using False by simp
    next
      case ne: False
      then have "x \<in> set xs" using Cons.prems(2) by simp
      moreover have "sorted_wrt (<) xs" using Cons.prems(1) by simp
      ultimately have "x \<le> last xs" using Cons.IH by simp
      then show ?thesis using False by simp
    qed
  qed
qed

lemma custom_strictly_increasing:
  assumes "dl \<noteq> []" "\<forall>d\<in>set dl. 0 < d" "custom_make_coords_initial dl c sz = Some (Inr bs)"
  shows "sorted_wrt (<) bs"
proof -
  let ?cl = "custom_clipped dl c sz"
  have d0: "0 < hd dl" and d1: "0 < last dl" using assms(1,2) by simp_all
  have ne: "?cl \<noteq> []"
  proof
    assume "?cl = []"
    then have p: "prepend_loop (hd dl) (c - sz / 2) ?cl = Some (Inl IndexError)"
      by (subst prepend_loop.simps) simp
    have "custom_make_coords_initial dl c sz = Some (Inl IndexError)"
      unfolding custom_make_coords_initial_def Let_def p by (simp split: list.splits)
    with assms(3) show False by simp
  qed
  define L where "L = repeat_below (hd dl) (hd ?cl) (nat \<lfloor>(hd ?cl - (c - sz / 2)) / hd dl\<rfloor>)"
  define R where "R = repeat_above (last dl) (last ?cl) (nat \<lfloor>(c + sz / 2 - last ?cl) / last dl\<rfloor>)"
  have "custom_make_coords_initial dl c sz = Some (Inr (L @ ?cl @ R))"
    unfolding L_def R_def using assms(1) d0 d1 ne by (rule custom_result)
  with assms(3) have "Some (Inr bs) = Some (Inr (L @ ?cl @ R) :: error + real list)" by (rule trans [OF sym])
  then have bs: "bs = L @ ?cl @ R" by (simp only: option.inject sum.inject)
  have cl: "sorted_wrt (<) ?cl" using assms(2) by (rule custom_clipped_increasing)
  have sL: "sorted_wrt (<) L" unfolding L_def using d0 by (rule repeat_below_increasing)
  have sR: "sorted_wrt (<) R" unfolding R_def using d1 by (rule repeat_above_increasing)
  have Lb: "x < hd ?cl" if "x \<in> set L" for x
    using repeat_below_bounds [OF d0, of x] that unfolding L_def by simp
  have Rb: "last ?cl < y" if "y \<in> set R" for y
    using repeat_above_bounds [OF d1, of y] that unfolding R_def by simp
  have hl: "hd ?cl \<le> last ?cl" using sorted_le_last [OF cl, of "hd ?cl"] ne by simp
  have 1: "\<forall>x\<in>set L. \<forall>y\<in>set ?cl. x < y"
  proof (intro ballI)
    fix x y assume "x \<in> set L" "y \<in> set ?cl"
    then have "x < hd ?cl" "hd ?cl \<le> y" using Lb sorted_hd_le [OF cl, of y] by simp_all
    then show "x < y" by simp
  qed
  have 2: "\<forall>x\<in>set ?cl. \<forall>y\<in>set R. x < y"
  proof (intro ballI)
    fix x y assume "x \<in> set ?cl" "y \<in> set R"
    then have "x \<le> last ?cl" "last ?cl < y" using Rb sorted_le_last [OF cl, of x] by simp_all
    then show "x < y" by simp
  qed
  have 3: "\<forall>x\<in>set L. \<forall>y\<in>set R. x < y"
  proof (intro ballI)
    fix x y assume "x \<in> set L" "y \<in> set R"
    then have "x < hd ?cl" "last ?cl < y" using Lb Rb by simp_all
    with hl show "x < y" by simp
  qed
  have "sorted_wrt (<) (?cl @ R)" using cl sR 2 by (simp only: sorted_wrt_append)
  moreover have "\<forall>x\<in>set L. \<forall>y\<in>set (?cl @ R). x < y" using 1 3 by (simp only: set_append) blast
  ultimately show ?thesis unfolding bs using sL by (simp only: sorted_wrt_append [of _ L])
qed

end
